theory Spec2Isabelle
  imports Complex_Main "HOL-Library.Sublist"
begin

section \<open>Text, characters and Python exceptions\<close>

text \<open>
  The report text is a Python \<open>str\<close>. It is modelled as a \<open>string\<close> in which every
  \<open>char\<close> is one code point in the range 0..255; the character classes below are
  those of Python's \<open>re\<close> module for \<open>str\<close> patterns on that range. Amounts are
  Python floats; the model keeps the exact decimal value of a token as a rational
  number, the number that \<open>float\<close> rounds to the nearest double.
\<close>

datatype exn = Exn (exn_class: string) (exn_msg: string)

definition cp :: "char \<Rightarrow> nat" where
  "cp c = of_char c"

text \<open>\<open>\d\<close>: the decimal digits.\<close>

definition is_digit :: "char \<Rightarrow> bool" where
  "is_digit c = (48 \<le> cp c \<and> cp c \<le> 57)"

text \<open>\<open>\s\<close>: tab to carriage return, the four separators 0x1C..0x1F, space, NEL, NBSP.\<close>

definition is_space :: "char \<Rightarrow> bool" where
  "is_space c = ((9 \<le> cp c \<and> cp c \<le> 13) \<or> (28 \<le> cp c \<and> cp c \<le> 32)
     \<or> cp c = 133 \<or> cp c = 160)"

text \<open>\<open>\w\<close>: alphanumeric code points and the underscore.\<close>

definition is_word :: "char \<Rightarrow> bool" where
  "is_word c = ((48 \<le> cp c \<and> cp c \<le> 57) \<or> (65 \<le> cp c \<and> cp c \<le> 90)
     \<or> (97 \<le> cp c \<and> cp c \<le> 122) \<or> cp c = 95
     \<or> cp c = 170 \<or> cp c = 178 \<or> cp c = 179 \<or> cp c = 181 \<or> cp c = 185
     \<or> cp c = 186 \<or> cp c = 188 \<or> cp c = 189 \<or> cp c = 190
     \<or> (192 \<le> cp c \<and> cp c \<le> 214) \<or> (216 \<le> cp c \<and> cp c \<le> 246)
     \<or> (248 \<le> cp c \<and> cp c \<le> 255))"

section \<open>A backtracking matcher for the patterns of the source\<close>

text \<open>
  An item of a bracketed class \<open>[...]\<close>: a single character, a range \<open>a-z\<close>,
  \<open>\d\<close> or \<open>\s\<close>.
\<close>

datatype citem = CChar char | CRange char char | CDigit | CSpace

fun in_item :: "citem \<Rightarrow> char \<Rightarrow> bool" where
  "in_item (CChar d) c = (c = d)"
| "in_item (CRange lo hi) c = (cp lo \<le> cp c \<and> cp c \<le> cp hi)"
| "in_item CDigit c = is_digit c"
| "in_item CSpace c = is_space c"

definition in_class :: "citem list \<Rightarrow> char \<Rightarrow> bool" where
  "in_class items c = list_ex (\<lambda>i. in_item i c) items"

text \<open>
  The constructs the patterns use: literal text, \<open>\b\<close>, a class under \<open>+\<close>, \<open>*\<close>
  or the lazy \<open>+?\<close>, concatenation, alternation \<open>|\<close>, an optional group \<open>(?:r)?\<close>
  and a capturing group \<open>(r)\<close>.
\<close>

datatype regex =
    Lit string
  | WordB
  | Plus "citem list"
  | Star "citem list"
  | PlusLazy "citem list"
  | Seq regex regex
  | Alt regex regex
  | Opt regex
  | Group regex

text \<open>
  A position in the text is the character before it (\<open>None\<close> at the start) and the
  text that remains. \<open>eat w\<close> consumes the literal \<open>w\<close>.
\<close>

fun eat :: "string \<Rightarrow> char option \<Rightarrow> string \<Rightarrow> (char option \<times> string) option" where
  "eat [] p s = Some (p, s)"
| "eat (c # w) p [] = None"
| "eat (c # w) p (d # s) = (if c = d then eat w (Some d) s else None)"

text \<open>\<open>\b\<close> holds where exactly one of the two neighbours is a word character.\<close>

definition word_before :: "char option \<Rightarrow> bool" where
  "word_before p = (case p of None \<Rightarrow> False | Some c \<Rightarrow> is_word c)"

definition word_after :: "string \<Rightarrow> bool" where
  "word_after s = (case s of [] \<Rightarrow> False | c # _ \<Rightarrow> is_word c)"

definition at_boundary :: "char option \<Rightarrow> string \<Rightarrow> bool" where
  "at_boundary p s = (word_before p \<noteq> word_after s)"

text \<open>
  Greedy repetition of a class: take as many characters as possible, then give one
  back at a time while the rest of the pattern (the continuation \<open>k\<close>) fails.
\<close>

fun greedy :: "(char \<Rightarrow> bool) \<Rightarrow> char option \<Rightarrow> string
    \<Rightarrow> (char option \<Rightarrow> string \<Rightarrow> 'a option) \<Rightarrow> 'a option" where
  "greedy P p [] k = k p []"
| "greedy P p (c # cs) k =
     (if P c then (case greedy P (Some c) cs k of Some r \<Rightarrow> Some r | None \<Rightarrow> k p (c # cs))
      else k p (c # cs))"

text \<open>Lazy repetition: try the rest of the pattern first, take one more character if it fails.\<close>

fun lazy :: "(char \<Rightarrow> bool) \<Rightarrow> char option \<Rightarrow> string
    \<Rightarrow> (char option \<Rightarrow> string \<Rightarrow> 'a option) \<Rightarrow> 'a option" where
  "lazy P p [] k = k p []"
| "lazy P p (c # cs) k =
     (case k p (c # cs) of Some r \<Rightarrow> Some r
      | None \<Rightarrow> if P c then lazy P (Some c) cs k else None)"

text \<open>
  The matcher, in continuation-passing style: \<open>rmatch r p s g k\<close> matches \<open>r\<close> at the
  position \<open>(p, s)\<close> with the groups \<open>g\<close> captured so far and hands every way of
  matching, in the order Python's engine tries them, to \<open>k\<close> until one succeeds.
  Groups are collected in the order they close, which is their number in every
  pattern of the source (no group is nested or optional).
\<close>

fun rmatch :: "regex \<Rightarrow> char option \<Rightarrow> string \<Rightarrow> string list
    \<Rightarrow> (char option \<Rightarrow> string \<Rightarrow> string list \<Rightarrow> 'a option) \<Rightarrow> 'a option" where
  "rmatch (Lit w) p s g k =
     (case eat w p s of None \<Rightarrow> None | Some (p', s') \<Rightarrow> k p' s' g)"
| "rmatch WordB p s g k = (if at_boundary p s then k p s g else None)"
| "rmatch (Plus cl) p s g k =
     (case s of [] \<Rightarrow> None
      | c # cs \<Rightarrow> if in_class cl c then greedy (in_class cl) (Some c) cs (\<lambda>p' s'. k p' s' g)
                  else None)"
| "rmatch (Star cl) p s g k = greedy (in_class cl) p s (\<lambda>p' s'. k p' s' g)"
| "rmatch (PlusLazy cl) p s g k =
     (case s of [] \<Rightarrow> None
      | c # cs \<Rightarrow> if in_class cl c then lazy (in_class cl) (Some c) cs (\<lambda>p' s'. k p' s' g)
                  else None)"
| "rmatch (Seq a b) p s g k = rmatch a p s g (\<lambda>p' s' g'. rmatch b p' s' g' k)"
| "rmatch (Alt a b) p s g k =
     (case rmatch a p s g k of Some r \<Rightarrow> Some r | None \<Rightarrow> rmatch b p s g k)"
| "rmatch (Opt a) p s g k =
     (case rmatch a p s g k of Some r \<Rightarrow> Some r | None \<Rightarrow> k p s g)"
| "rmatch (Group a) p s g k =
     rmatch a p s g (\<lambda>p' s' g'. k p' s' (g' @ [take (length s - length s') s]))"

text \<open>A match starting exactly here: its groups and the position after it.\<close>

definition match_at :: "regex \<Rightarrow> char option \<Rightarrow> string
    \<Rightarrow> (string list \<times> char option \<times> string) option" where
  "match_at r p s = rmatch r p s [] (\<lambda>p' s' g. Some (g, p', s'))"

text \<open>\<open>re.search\<close>: the match at the leftmost position that has one.\<close>

fun search_from :: "regex \<Rightarrow> char option \<Rightarrow> string \<Rightarrow> string list option" where
  "search_from r p [] = (case match_at r p [] of None \<Rightarrow> None | Some (g, _, _) \<Rightarrow> Some g)"
| "search_from r p (c # cs) =
     (case match_at r p (c # cs) of None \<Rightarrow> search_from r (Some c) cs
      | Some (g, _, _) \<Rightarrow> Some g)"

definition re_search :: "regex \<Rightarrow> string \<Rightarrow> string list option" where
  "re_search r text = search_from r None text"

text \<open>
  \<open>re.findall\<close>: the groups of every match, left to right, each search starting where
  the previous match ended (one character further after an empty match, which no
  pattern of the source has).
\<close>

function findall_from :: "regex \<Rightarrow> char option \<Rightarrow> string \<Rightarrow> string list list" where
  "findall_from r p [] = (case match_at r p [] of None \<Rightarrow> [] | Some (g, _, _) \<Rightarrow> [g])"
| "findall_from r p (c # cs) =
     (case match_at r p (c # cs) of None \<Rightarrow> findall_from r (Some c) cs
      | Some (g, p', s') \<Rightarrow>
          if length s' < length (c # cs) then g # findall_from r p' s'
          else g # findall_from r (Some c) cs)"
  by pat_completeness auto
termination
  by (relation "measure (\<lambda>(r, p, s). length s)") auto

definition re_findall :: "regex \<Rightarrow> string \<Rightarrow> string list list" where
  "re_findall r text = findall_from r None text"

section \<open>The extraction of \<open>parse_basic_metrics\<close> (src/app.py)\<close>

subsection \<open>The patterns\<close>

text \<open>\<open>Merchandise Sales\s+([\d\.]+)\<close>\<close>

definition pat_subtotal :: regex where
  "pat_subtotal = Seq (Lit ''Merchandise Sales'') (Seq (Plus [CSpace])
     (Group (Plus [CDigit, CChar CHR ''.''])))"

text \<open>\<open>Tax A\s+([\d\.]+)\<close>, and the same for B and C\<close>

definition pat_tax_a :: regex where
  "pat_tax_a = Seq (Lit ''Tax A'') (Seq (Plus [CSpace]) (Group (Plus [CDigit, CChar CHR ''.''])))"

definition pat_tax_b :: regex where
  "pat_tax_b = Seq (Lit ''Tax B'') (Seq (Plus [CSpace]) (Group (Plus [CDigit, CChar CHR ''.''])))"

definition pat_tax_c :: regex where
  "pat_tax_c = Seq (Lit ''Tax C'') (Seq (Plus [CSpace]) (Group (Plus [CDigit, CChar CHR ''.''])))"

text \<open>\<open>Tax Total\s+([\d\.]+)\<close>\<close>

definition pat_tax_total :: regex where
  "pat_tax_total = Seq (Lit ''Tax Total'') (Seq (Plus [CSpace])
     (Group (Plus [CDigit, CChar CHR ''.''])))"

text \<open>\<open>\bTotal\s+([\d\.]+)\<close>\<close>

definition pat_grand :: regex where
  "pat_grand = Seq WordB (Seq (Lit ''Total'') (Seq (Plus [CSpace])
     (Group (Plus [CDigit, CChar CHR ''.'']))))"

text \<open>\<open>\b(Cash|AmEx|Visa|Master|Other|Discover):\s*([\d\.]+)\<close>\<close>

definition pat_pay :: regex where
  "pat_pay = Seq WordB (Seq
     (Group (Alt (Lit ''Cash'') (Alt (Lit ''AmEx'') (Alt (Lit ''Visa'')
        (Alt (Lit ''Master'') (Alt (Lit ''Other'') (Lit ''Discover'')))))))
     (Seq (Lit '':'') (Seq (Star [CSpace]) (Group (Plus [CDigit, CChar CHR ''.''])))))"

text \<open>\<open>([A-Z0-9 \-&'\.]+?)\s+(\d+)\s+([\d\.]+)\s+(?:[\d\.]+\s+)?[\d\.]+\<close>\<close>

definition pat_dept :: regex where
  "pat_dept = Seq
     (Group (PlusLazy [CRange CHR ''A'' CHR ''Z'', CRange CHR ''0'' CHR ''9'', CChar CHR '' '',
        CChar CHR ''-'', CChar CHR ''&'', CChar CHR 0x27, CChar CHR ''.'']))
     (Seq (Plus [CSpace]) (Seq (Group (Plus [CDigit])) (Seq (Plus [CSpace])
     (Seq (Group (Plus [CDigit, CChar CHR ''.''])) (Seq (Plus [CSpace])
     (Seq (Opt (Seq (Plus [CDigit, CChar CHR ''.'']) (Plus [CSpace])))
          (Plus [CDigit, CChar CHR ''.''])))))))"

subsection \<open>Numbers from tokens\<close>

definition nat_of_digits :: "string \<Rightarrow> nat" where
  "nat_of_digits ds = fold (\<lambda>c n. 10 * n + (cp c - 48)) ds 0"

text \<open>
  \<open>float\<close> on a token of digits and dots (all that the capture \<open>[\d\.]+\<close> can hold):
  digits with at most one dot and at least one digit denote a number, anything else
  is refused.
\<close>

definition float_of_token :: "string \<Rightarrow> rat option" where
  "float_of_token t =
     (let ip = takeWhile is_digit t; r = dropWhile is_digit t in
      case r of
        [] \<Rightarrow> if ip = [] then None else Some (of_nat (nat_of_digits ip))
      | c # fp \<Rightarrow>
          if c = CHR ''.'' \<and> list_all is_digit fp \<and> ip @ fp \<noteq> []
          then Some (of_nat (nat_of_digits (ip @ fp)) / 10 ^ length fp)
          else None)"

text \<open>
  A value held by the payments dictionary: a captured token (\<open>str\<close>) or a number
  (the \<open>0\<close> of \<open>pays.get(k, 0)\<close>, or a float).
\<close>

datatype val = Str string | Num rat

text \<open>\<open>repr\<close> of a token of digits and dots.\<close>

definition repr :: "string \<Rightarrow> string" where
  "repr t = [CHR 0x27] @ t @ [CHR 0x27]"

definition py_float :: "val \<Rightarrow> exn + rat" where
  "py_float v =
     (case v of
        Num x \<Rightarrow> Inr x
      | Str t \<Rightarrow>
          (case float_of_token t of
             Some x \<Rightarrow> Inr x
           | None \<Rightarrow> Inl (Exn ''ValueError'' (''could not convert string to float: '' @ repr t))))"

text \<open>
  \<^verbatim>\<open>
  def grab(pat, default="0"):
      m = re.search(pat, text)
      return float(m.group(1)) if m else float(default)
  \<close>
\<close>

definition grab :: "string \<Rightarrow> regex \<Rightarrow> string \<Rightarrow> exn + rat" where
  "grab text pat dflt =
     (case re_search pat text of
        Some g \<Rightarrow> py_float (Str (hd g))
      | None \<Rightarrow> py_float (Str dflt))"

subsection \<open>Payments\<close>

text \<open>
  A Python \<open>dict\<close> keeps its keys in insertion order: storing under an existing key
  replaces the value in place, a new key goes to the end.
\<close>

fun dict_set :: "('k \<times> 'v) list \<Rightarrow> 'k \<Rightarrow> 'v \<Rightarrow> ('k \<times> 'v) list" where
  "dict_set [] k v = [(k, v)]"
| "dict_set ((k', v') # d) k v = (if k' = k then (k, v) # d else (k', v') # dict_set d k v)"

fun dict_get :: "('k \<times> 'v) list \<Rightarrow> 'k \<Rightarrow> 'v \<Rightarrow> 'v" where
  "dict_get [] k dflt = dflt"
| "dict_get ((k', v') # d) k dflt = (if k' = k then v' else dict_get d k dflt)"

text \<open>\<open>dict(pairs)\<close>: the pairs are stored one after the other.\<close>

definition dict_of_pairs :: "string list list \<Rightarrow> (string \<times> val) list" where
  "dict_of_pairs ps = fold (\<lambda>g d. dict_set d (g ! 0) (Str (g ! 1))) ps []"

text \<open>
  \<^verbatim>\<open>
  for k in ["Cash","AmEx","Visa","Master","Other","Discover"]:
      pays[k] = float(pays.get(k, 0))
  \<close>
\<close>

definition pay_methods :: "string list" where
  "pay_methods = [''Cash'', ''AmEx'', ''Visa'', ''Master'', ''Other'', ''Discover'']"

fun pays_loop :: "string list \<Rightarrow> (string \<times> val) list \<Rightarrow> exn + (string \<times> val) list" where
  "pays_loop [] pays = Inr pays"
| "pays_loop (k # ks) pays =
     (case py_float (dict_get pays k (Num 0)) of
        Inl e \<Rightarrow> Inl e
      | Inr x \<Rightarrow> pays_loop ks (dict_set pays k (Num x)))"

definition parse_payments :: "string \<Rightarrow> exn + (string \<times> val) list" where
  "parse_payments text = pays_loop pay_methods (dict_of_pairs (re_findall pat_pay text))"

subsection \<open>The department table\<close>

record dept_row =
  Department :: string
  Qty :: int
  Sales :: rat

text \<open>
  \<open>astype(int)\<close> on the column of quantity tokens (digits only): a value that does not
  fit 64 bits is refused.
\<close>

definition qty_of_token :: "string \<Rightarrow> exn + int" where
  "qty_of_token t =
     (if nat_of_digits t < 2 ^ 63 then Inr (int (nat_of_digits t))
      else Inl (Exn ''OverflowError'' ''Python int too large to convert to C long''))"

fun astype_int :: "string list \<Rightarrow> exn + int list" where
  "astype_int [] = Inr []"
| "astype_int (t # ts) =
     (case qty_of_token t of
        Inl e \<Rightarrow> Inl e
      | Inr q \<Rightarrow> (case astype_int ts of Inl e \<Rightarrow> Inl e | Inr qs \<Rightarrow> Inr (q # qs)))"

fun astype_float :: "string list \<Rightarrow> exn + rat list" where
  "astype_float [] = Inr []"
| "astype_float (t # ts) =
     (case py_float (Str t) of
        Inl e \<Rightarrow> Inl e
      | Inr x \<Rightarrow> (case astype_float ts of Inl e \<Rightarrow> Inl e | Inr xs \<Rightarrow> Inr (x # xs)))"

fun make_rows :: "string list \<Rightarrow> int list \<Rightarrow> rat list \<Rightarrow> dept_row list" where
  "make_rows (n # ns) (q # qs) (x # xs) =
     \<lparr>Department = n, Qty = q, Sales = x\<rparr> # make_rows ns qs xs"
| "make_rows _ _ _ = []"

text \<open>
  The rows of \<open>dept_df\<close>: the three groups of every match, the quantity column
  converted first, then the sales column.
\<close>

definition parse_departments :: "string \<Rightarrow> exn + dept_row list" where
  "parse_departments text =
     (let dept_rows = re_findall pat_dept text in
      case astype_int (map (\<lambda>g. g ! 1) dept_rows) of
        Inl e \<Rightarrow> Inl e
      | Inr qs \<Rightarrow>
          (case astype_float (map (\<lambda>g. g ! 2) dept_rows) of
             Inl e \<Rightarrow> Inl e
           | Inr xs \<Rightarrow> Inr (make_rows (map (\<lambda>g. g ! 0) dept_rows) qs xs)))"

subsection \<open>The metrics record\<close>

record metrics =
  subtotal :: rat
  tax_a :: rat
  tax_b :: rat
  tax_c :: rat
  tax_total :: rat
  grand_total :: rat
  payments :: "(string \<times> val) list"
  dept_df :: "dept_row list"

text \<open>Sequencing of steps that may raise: the first exception ends the function.\<close>

definition bind_exn :: "exn + 'a \<Rightarrow> ('a \<Rightarrow> exn + 'b) \<Rightarrow> exn + 'b" where
  "bind_exn x f = (case x of Inl e \<Rightarrow> Inl e | Inr a \<Rightarrow> f a)"

definition parse_basic_metrics :: "string \<Rightarrow> exn + metrics" where
  "parse_basic_metrics text =
     bind_exn (grab text pat_subtotal ''0'') (\<lambda>subtotal.
     bind_exn (grab text pat_tax_a ''0'') (\<lambda>tax_a.
     bind_exn (grab text pat_tax_b ''0'') (\<lambda>tax_b.
     bind_exn (grab text pat_tax_c ''0'') (\<lambda>tax_c.
     bind_exn (grab text pat_tax_total ''0'') (\<lambda>tax_total.
     bind_exn (grab text pat_grand ''0'') (\<lambda>grand.
     bind_exn (parse_payments text) (\<lambda>pays.
     bind_exn (parse_departments text) (\<lambda>dept_df.
       Inr \<lparr>subtotal = subtotal, tax_a = tax_a, tax_b = tax_b, tax_c = tax_c,
            tax_total = tax_total, grand_total = grand, payments = pays,
            dept_df = dept_df\<rparr>))))))))"

section \<open>The audit request of \<open>analyze_with_ai\<close> (src/app.py)\<close>

text \<open>A decoded JSON value, as \<open>json.loads\<close> returns it; an object keeps the order of its keys.\<close>

datatype json =
    JNull
  | JBool bool
  | JInt int
  | JFloat rat
  | JStr string
  | JArr "json list"
  | JObj "(string \<times> json) list"

text \<open>
  \<open>sort_values("Sales", ascending=False)\<close>. Rows with equal sales keep their text order
  here; pandas does not promise an order among them.
\<close>

definition sort_values_desc :: "dept_row list \<Rightarrow> dept_row list" where
  "sort_values_desc rows = sort_key (\<lambda>r. - Sales r) rows"

text \<open>
  \<^verbatim>\<open>
  dept_preview = (metrics["dept_df"][["Department","Qty","Sales"]]
      .sort_values("Sales", ascending=False).head(20).to_dict(orient="records")
      if not metrics["dept_df"].empty else [])
  \<close>
\<close>

definition dept_preview :: "metrics \<Rightarrow> dept_row list" where
  "dept_preview m = (if dept_df m \<noteq> [] then take 20 (sort_values_desc (dept_df m)) else [])"

record parsed_numbers =
  pn_subtotal :: rat
  pn_tax_a :: rat
  pn_tax_b :: rat
  pn_tax_c :: rat
  pn_tax_total :: rat
  pn_grand_total :: rat
  pn_payments :: "(string \<times> val) list"
  departments_top20 :: "dept_row list"

record user_payload =
  instructions :: "string list"
  numbers :: parsed_numbers
  raw_text_excerpt :: string

text \<open>
  Three characters of the source lie outside the modelled range: the sign U+2248 and
  the dashes U+2013 and U+2014. Each is written as the escape \<open>json.dumps\<close> gives it,
  a backslash, \<open>u\<close> and the four hexadecimal digits.
\<close>

definition u2248 :: string where
  "u2248 = CHR 0x5C # ''u2248''"



definition audit_instructions :: "string list" where
  "audit_instructions =
     [''Summarize key insights (top departments, peak hours if present).'',
      ''Validate math: subtotal + taxes '' @ u2248 @ '' grand_total; payment sums '' @ u2248 @ '' grand_total.'',
      ''Flag anomalies: negative numbers, zero tax when subtotal>0, drawer mismatches, weird spikes, missing hours.'',
      ''Severity levels: INFO, WARNING, CRITICAL.'']"


definition build_user :: "string \<Rightarrow> metrics \<Rightarrow> user_payload" where
  "build_user text m =
     \<lparr>instructions = audit_instructions,
      numbers = \<lparr>pn_subtotal = subtotal m, pn_tax_a = tax_a m, pn_tax_b = tax_b m,
                 pn_tax_c = tax_c m, pn_tax_total = tax_total m,
                 pn_grand_total = grand_total m, pn_payments = payments m,
                 departments_top20 = dept_preview m\<rparr>,
      raw_text_excerpt = take 6000 text\<rparr>"





section \<open>The page (src/app.py, from \<open>if uploaded_file\<close>)\<close>

text \<open>
  \<open>pd.DataFrame(issues)\<close> for a list of objects: the columns are the keys in the order
  they first appear, a row has no value (NaN, here \<open>None\<close>) where its object lacks the key.
\<close>

record data_frame =
  df_columns :: "string list"
  df_rows :: "json option list list"





text \<open>What the page shows, in order. Labels are written without their pictographs.\<close>

datatype widget =
    Metric string rat
  | PieChart "(string \<times> val) list"
  | Subheader string
  | BarChart "dept_row list"
  | Dataframe "dept_row list"
  | ErrorBox json
  | Markdown string
  | Write json
  | Findings data_frame
  | Success string
  | Caption_tokens int int int
  | Caption_cost rat
  | Expander string string
  | Info string

text \<open>
  \<^verbatim>\<open>
  def estimated_cost(model_name, in_t, out_t):
      if model_name == "gpt-5":
          return (in_t/1_000_000)*1.25 + (out_t/1_000_000)*10.0
      if model_name == "gpt-5-mini":
          return (in_t/1_000_000)*0.25 + (out_t/1_000_000)*2.0
      return 0.0
  \<close>
\<close>

definition estimated_cost :: "string \<Rightarrow> int \<Rightarrow> int \<Rightarrow> rat" where
  "estimated_cost model_name in_t out_t =
     (if model_name = ''gpt-5''
      then (of_int in_t / 1000000) * (125 / 100) + (of_int out_t / 1000000) * 10
      else if model_name = ''gpt-5-mini''
      then (of_int in_t / 1000000) * (25 / 100) + (of_int out_t / 1000000) * 2
      else 0)"






text \<open>
  \<open>sum(m['payments'].values())\<close>: the sum starts from the integer 0, and adding a
  string to a number raises.
\<close>

fun sum_values :: "val list \<Rightarrow> bool \<Rightarrow> rat \<Rightarrow> exn + rat" where
  "sum_values [] first acc = Inr acc"
| "sum_values (Num x # vs) first acc = sum_values vs False (acc + x)"
| "sum_values (Str t # vs) first acc =
     Inl (Exn ''TypeError'' (''unsupported operand type(s) for +: ''
        @ repr (if first then ''int'' else ''float'') @ '' and '' @ repr ''str''))"

text \<open>The KPI row, the payments pie and, when there are department rows, their charts.\<close>

definition dashboard :: "metrics \<Rightarrow> exn + widget list" where
  "dashboard m =
     bind_exn (sum_values (map snd (payments m)) True 0) (\<lambda>total.
       Inr ([Metric ''Merchandise Sales'' (subtotal m),
             Metric ''Tax Total'' (tax_total m),
             Metric ''Payments (sum)'' total,
             Metric ''Grand Total'' (grand_total m),
             PieChart (payments m)]
            @ (if dept_df m \<noteq> []
               then [Subheader ''Sales by Department'',
                     BarChart (sort_values_desc (dept_df m)),
                     Dataframe (sort_values_desc (dept_df m))]
               else [])))"







section \<open>Reference inputs and auxiliary notions\<close>

text \<open>
  The documented rates per million tokens, following the specification: the fast, cheap
  model (\<open>gpt-5-mini\<close>) 0.25 in and 2.0 out, the deep model (\<open>gpt-5\<close>) 1.25 in and
  10.0 out; no rate for any other identifier.
\<close>

definition rate_per_million_input :: "string \<Rightarrow> rat option" where
  "rate_per_million_input model_id =
     (if model_id = ''gpt-5-mini'' then Some (25 / 100)
      else if model_id = ''gpt-5'' then Some (125 / 100) else None)"

definition rate_per_million_output :: "string \<Rightarrow> rat option" where
  "rate_per_million_output model_id =
     (if model_id = ''gpt-5-mini'' then Some 2
      else if model_id = ''gpt-5'' then Some 10 else None)"

text \<open>
  The documented cost: input tokens per million times the input rate plus output
  tokens per million times the output rate, and 0.0 for an identifier without rates.
\<close>

definition documented_cost :: "string \<Rightarrow> int \<Rightarrow> int \<Rightarrow> rat" where
  "documented_cost model_id input_tokens output_tokens =
     (case (rate_per_million_input model_id, rate_per_million_output model_id) of
        (Some rin, Some rout) \<Rightarrow>
          of_int input_tokens / 1000000 * rin + of_int output_tokens / 1000000 * rout
      | _ \<Rightarrow> 0)"

text \<open>Fifty rows with the sales 0, 1, ..., 49.\<close>

definition sample_rows :: "dept_row list" where
  "sample_rows = map (\<lambda>i. \<lparr>Department = ''D'', Qty = 1, Sales = of_nat i\<rparr>) [0..<50]"

definition sample_metrics :: metrics where
  "sample_metrics = \<lparr>subtotal = 0, tax_a = 0, tax_b = 0, tax_c = 0, tax_total = 0,
     grand_total = 0, payments = [], dept_df = sample_rows\<rparr>"

text \<open>The character before the position that follows the longest run of \<open>P\<close>.\<close>

definition span_end :: "(char \<Rightarrow> bool) \<Rightarrow> char option \<Rightarrow> string \<Rightarrow> char option" where
  "span_end P p s = (if takeWhile P s = [] then p else Some (last (takeWhile P s)))"

text \<open>The class \<open>[\d\.]\<close>.\<close>

definition is_amount_char :: "char \<Rightarrow> bool" where
  "is_amount_char c = (is_digit c \<or> c = CHR ''.'')"

text \<open>The capture \<open>([\d\.]+)\<close> at the end of a pattern.\<close>

definition amount_here :: "string \<Rightarrow> (string \<times> char option \<times> string) option" where
  "amount_here s =
     (if takeWhile is_amount_char s = [] then None
      else Some (takeWhile is_amount_char s, Some (last (takeWhile is_amount_char s)),
                 dropWhile is_amount_char s))"

text \<open>An amount token cannot go on into \<open>suf\<close>: it is empty or starts with neither digit nor dot.\<close>

definition ends_amount :: "string \<Rightarrow> bool" where
  "ends_amount suf = (case suf of [] \<Rightarrow> True | c # _ \<Rightarrow> \<not> is_digit c \<and> c \<noteq> CHR ''.'')"

text \<open>The shape \<open>L\s+([\d\.]+)\<close> of the scalar patterns.\<close>

definition label_amount :: "string \<Rightarrow> regex" where
  "label_amount L = Seq (Lit L) (Seq (Plus [CSpace]) (Group (Plus [CDigit, CChar CHR ''.''])))"

text \<open>The six scalar patterns, in the order the fields are read.\<close>

definition scalar_patterns :: "regex list" where
  "scalar_patterns = [pat_subtotal, pat_tax_a, pat_tax_b, pat_tax_c, pat_tax_total, pat_grand]"

text \<open>The amounts captured for the method \<open>k\<close>, in document order.\<close>

definition pay_occurrences :: "string \<Rightarrow> string \<Rightarrow> string list" where
  "pay_occurrences k text = map (\<lambda>g. g ! 1) (filter (\<lambda>g. g ! 0 = k) (re_findall pat_pay text))"

text \<open>One alternative \<open>L\<close> of the payment pattern, then \<open>:\s*([\d\.]+)\<close>.\<close>

definition pay_alt :: "string \<Rightarrow> char option \<Rightarrow> string
    \<Rightarrow> (string list \<times> char option \<times> string) option" where
  "pay_alt L p s =
     (case eat L p s of
        None \<Rightarrow> None
      | Some (p1, s1) \<Rightarrow>
          (case eat '':'' p1 s1 of
             None \<Rightarrow> None
           | Some (p2, s2) \<Rightarrow>
               (case amount_here (dropWhile is_space s2) of
                  None \<Rightarrow> None
                | Some (t, p', s') \<Rightarrow> Some ([L, t], p', s'))))"





text \<open>The end-to-end text of the specification.\<close>

definition e2e_text :: string where
  "e2e_text = ''Merchandise Sales 200.00\<newline>Tax A 10.00\<newline>Tax Total 16.00\<newline>Total 216.00\<newline>Cash: 216.00\<newline>GROCERY 10 150.00\<newline>DELI 5 50.00''"





section \<open>Properties\<close>

text \<open>
  \<^bold>\<open>C8.\<close> For every model identifier and token counts, \<open>estimated_cost\<close> is the
  documented cost: tokens per million times the model's rates (0.25 and 2.0 for the
  fast model, 1.25 and 10.0 for the deep one), and 0.0 for any other identifier. One
  million input and one million output tokens on the fast model cost exactly
  0.25 + 2.0 = 2.25. The arithmetic is exact here; the numbers of the instance are
  exact in binary floating point as well.
\<close>

theorem estimated_cost_documented:
  "estimated_cost model_id i n = documented_cost model_id i n
   \<and> estimated_cost ''gpt-5-mini'' 1000000 1000000 = 25 / 100 + 2
   \<and> estimated_cost ''gpt-5-mini'' 1000000 1000000 = 225 / 100"
  by (simp add: estimated_cost_def documented_cost_def rate_per_million_input_def
      rate_per_million_output_def)

lemma sorted_sort_values_desc: "sorted (map (\<lambda>r. - Sales r) (sort_values_desc rows))"
  by (simp add: sort_values_desc_def)

lemma top_rows_dominate:
  assumes "sorted (map f ys)" and "q \<in> set (take n ys)" and "r \<in> set (drop n ys)"
  shows "f q \<le> f r"
proof -
  have "sorted (map f (take n ys) @ map f (drop n ys))"
    using assms(1) by (simp flip: map_append)
  then show ?thesis
    using assms(2,3) by (auto simp: sorted_append)
qed

text \<open>
  \<^bold>\<open>C7.\<close> For every 50 department rows with pairwise distinct sales, the request
  payload holds exactly 20 department rows, in descending order of sales, all taken
  from the input, and every row left out has smaller sales than every row kept: they
  are the 20 rows with the largest sales.
\<close>

theorem dept_preview_top20:
  assumes len: "length (dept_df m) = 50"
    and dist: "distinct (map Sales (dept_df m))"
  shows "length (departments_top20 (numbers (build_user text m))) = 20
    \<and> sorted (map (\<lambda>r. - Sales r) (departments_top20 (numbers (build_user text m))))
    \<and> distinct (map Sales (departments_top20 (numbers (build_user text m))))
    \<and> set (departments_top20 (numbers (build_user text m))) \<subseteq> set (dept_df m)
    \<and> (\<forall>r \<in> set (dept_df m) - set (departments_top20 (numbers (build_user text m))).
         \<forall>q \<in> set (departments_top20 (numbers (build_user text m))). Sales r < Sales q)"
proof -
  let ?ys = "sort_values_desc (dept_df m)"
  let ?top = "departments_top20 (numbers (build_user text m))"
  have ne: "dept_df m \<noteq> []" using len by auto
  have top: "?top = take 20 ?ys"
    using ne by (simp add: build_user_def dept_preview_def)
  have leny: "length ?ys = 50" using len by (simp add: sort_values_desc_def)
  have sety: "set ?ys = set (dept_df m)" by (simp add: sort_values_desc_def)
  have disty: "distinct (map Sales ?ys)"
    using dist sety by (simp add: distinct_map sort_values_desc_def)
  have srt: "sorted (map (\<lambda>r. - Sales r) ?ys)" by (rule sorted_sort_values_desc)
  have c1: "length ?top = 20" using top leny by simp
  have c2: "sorted (map (\<lambda>r. - Sales r) ?top)"
    unfolding top using srt by (simp add: take_map [symmetric] sorted_wrt_take)
  have c3: "distinct (map Sales ?top)"
    unfolding top using disty by (simp add: take_map [symmetric])
  have c4: "set ?top \<subseteq> set (dept_df m)"
    unfolding top using sety by (metis set_take_subset)
  have c5: "Sales r < Sales q" if r: "r \<in> set (dept_df m) - set ?top" and q: "q \<in> set ?top" for r q
  proof -
    have "r \<in> set (take 20 ?ys) \<union> set (drop 20 ?ys)"
      using r sety by (simp flip: set_append)
    moreover have "r \<notin> set (take 20 ?ys)" using r top by simp
    ultimately have rd: "r \<in> set (drop 20 ?ys)" by blast
    have le: "- Sales q \<le> - Sales r"
      using top_rows_dominate [OF srt _ rd] q top by simp
    have "Sales q \<noteq> Sales r"
    proof
      assume eq: "Sales q = Sales r"
      have "q \<in> set ?ys" using q top by (metis in_set_takeD)
      moreover have "r \<in> set ?ys" using r sety by simp
      ultimately have "q = r" using disty eq by (meson distinct_map inj_onD)
      then show False using r q by simp
    qed
    then show ?thesis using le by simp
  qed
  show ?thesis using c1 c2 c3 c4 c5 by blast
qed

text \<open>The fifty sample rows satisfy the hypotheses, and their preview has 20 sorted rows.\<close>

theorem dept_preview_top20_witness:
  "length (dept_df sample_metrics) = 50
   \<and> distinct (map Sales (dept_df sample_metrics))
   \<and> length (departments_top20 (numbers (build_user [] sample_metrics))) = 20
   \<and> sorted (map (\<lambda>r. - Sales r) (departments_top20 (numbers (build_user [] sample_metrics))))"
proof -
  have h1: "length (dept_df sample_metrics) = 50"
    by (simp add: sample_metrics_def sample_rows_def)
  have h2: "distinct (map Sales (dept_df sample_metrics))"
    by (simp add: sample_metrics_def sample_rows_def distinct_map comp_def inj_on_def)
  show ?thesis
    using dept_preview_top20 [OF h1 h2, of "[]"] h1 h2 by blast
qed








lemma eat_eq_None_iff: "eat w p s = None \<longleftrightarrow> \<not> prefix w s"
  by (induction w p s rule: eat.induct) auto

lemma eat_eq_Some_iff:
  "eat w p s = Some (p', s') \<longleftrightarrow> s = w @ s' \<and> p' = (if w = [] then p else Some (last w))"
  by (induction w p s rule: eat.induct) auto

lemma eat_append: "eat w p (w @ s) = Some (if w = [] then p else Some (last w), s)"
  by (simp add: eat_eq_Some_iff)

lemma span_end_Cons:
  "span_end P p (c # cs) = (if P c then span_end P (Some c) cs else p)"
  by (simp add: span_end_def)

lemma greedy_cut:
  assumes "\<And>p' c' s'. P c' \<Longrightarrow> k p' (c' # s') = None"
  shows "greedy P p s k = k (span_end P p s) (dropWhile P s)"
  using assms
proof (induction s arbitrary: p)
  case Nil
  then show ?case by (simp add: span_end_def)
next
  case (Cons c cs)
  show ?case
  proof (cases "P c")
    case True
    have "greedy P (Some c) cs k = k (span_end P (Some c) cs) (dropWhile P cs)"
      by (rule Cons.IH) (rule Cons.prems)
    moreover have "k p (c # cs) = None" using True by (rule Cons.prems)
    ultimately show ?thesis using True
      by (simp add: span_end_Cons split: option.split)
  next
    case False
    then show ?thesis by (simp add: span_end_Cons)
  qed
qed

lemma greedy_accept:
  assumes "k (span_end P p s) (dropWhile P s) \<noteq> None"
  shows "greedy P p s k = k (span_end P p s) (dropWhile P s)"
  using assms
proof (induction s arbitrary: p)
  case Nil
  then show ?case by (simp add: span_end_def)
next
  case (Cons c cs)
  show ?case
  proof (cases "P c")
    case True
    then have "k (span_end P (Some c) cs) (dropWhile P cs) \<noteq> None"
      using Cons.prems by (simp add: span_end_Cons)
    then have "greedy P (Some c) cs k = k (span_end P (Some c) cs) (dropWhile P cs)"
      by (rule Cons.IH)
    then show ?thesis using True Cons.prems
      by (auto simp: span_end_Cons split: option.split)
  next
    case False
    then show ?thesis by (simp add: span_end_Cons)
  qed
qed

lemma greedy_SomeD:
  "greedy P p s k = Some r \<Longrightarrow> \<exists>p' s'. k p' s' = Some r"
  by (induction s arbitrary: p) (auto split: if_splits option.splits)

lemma take_length_dropWhile:
  "take (length s - length (dropWhile P s)) s = takeWhile P s"
proof -
  have "length s - length (dropWhile P s) = length (takeWhile P s)"
    by (metis add_diff_cancel_right' length_append takeWhile_dropWhile_id)
  then show ?thesis
    by (metis append_eq_conv_conj takeWhile_dropWhile_id)
qed

lemma in_class_amount: "in_class [CDigit, CChar CHR ''.''] = is_amount_char"
  by (auto simp: in_class_def is_amount_char_def fun_eq_iff)

lemma in_class_space: "in_class [CSpace] = is_space"
  by (auto simp: in_class_def fun_eq_iff)

lemma space_not_amount: "is_space c \<Longrightarrow> \<not> is_amount_char c"
  by (auto simp: is_space_def is_amount_char_def is_digit_def cp_def)

lemma rmatch_amount_group:
  "rmatch (Group (Plus [CDigit, CChar CHR ''.''])) p s g (\<lambda>p' s' g'. Some (g', p', s')) =
     (case amount_here s of None \<Rightarrow> None | Some (t, p', s') \<Rightarrow> Some (g @ [t], p', s'))"
proof (cases s)
  case Nil
  then show ?thesis by (simp add: amount_here_def)
next
  case (Cons c cs)
  show ?thesis
  proof (cases "is_amount_char c")
    case False
    then show ?thesis using Cons by (simp add: amount_here_def in_class_amount)
  next
    case True
    let ?k = "\<lambda>p' s'. Some (g @ [take (length s - length s') s], p', s')"
    have "greedy is_amount_char (Some c) cs ?k
          = ?k (span_end is_amount_char (Some c) cs) (dropWhile is_amount_char cs)"
      by (rule greedy_accept) simp
    moreover have "take (length s - length (dropWhile is_amount_char cs)) s
        = c # takeWhile is_amount_char cs"
      using take_length_dropWhile [of s is_amount_char] Cons True by simp
    ultimately show ?thesis using Cons True
      by (simp add: amount_here_def in_class_amount span_end_def)
  qed
qed

lemma amount_group_fails_on_space:
  "is_space c \<Longrightarrow> rmatch (Group (Plus [CDigit, CChar CHR ''.''])) p (c # s) g k = None"
  by (simp add: in_class_amount space_not_amount)

lemma rmatch_spaces_amount:
  "rmatch (Seq (Plus [CSpace]) (Group (Plus [CDigit, CChar CHR ''.'']))) p s []
      (\<lambda>p' s' g'. Some (g', p', s')) =
     (if takeWhile is_space s = [] then None
      else (case amount_here (dropWhile is_space s) of
              None \<Rightarrow> None | Some (t, p', s') \<Rightarrow> Some ([t], p', s')))"
proof (cases s)
  case Nil
  then show ?thesis by simp
next
  case (Cons c cs)
  show ?thesis
  proof (cases "is_space c")
    case False
    then show ?thesis using Cons by (simp add: in_class_space)
  next
    case True
    let ?k = "\<lambda>p' s'. rmatch (Group (Plus [CDigit, CChar CHR ''.''])) p' s' []
                (\<lambda>p' s' g'. Some (g', p', s'))"
    have "greedy is_space (Some c) cs ?k
            = ?k (span_end is_space (Some c) cs) (dropWhile is_space cs)"
      by (rule greedy_cut) (rule amount_group_fails_on_space)
    moreover have "rmatch (Seq (Plus [CSpace]) (Group (Plus [CDigit, CChar CHR ''.'']))) p s []
        (\<lambda>p' s' g'. Some (g', p', s')) = greedy is_space (Some c) cs ?k"
      using Cons True by (simp add: in_class_space del: rmatch.simps(9))
    ultimately show ?thesis using Cons True
      by (simp add: rmatch_amount_group del: rmatch.simps split: option.split)
  qed
qed

lemma match_at_label_amount:
  "match_at (label_amount L) p s =
     (case eat L p s of
        None \<Rightarrow> None
      | Some (p1, s1) \<Rightarrow>
          if takeWhile is_space s1 = [] then None
          else (case amount_here (dropWhile is_space s1) of
                  None \<Rightarrow> None | Some (t, p', s') \<Rightarrow> Some ([t], p', s')))"
proof -
  have "match_at (label_amount L) p s =
     (case eat L p s of
        None \<Rightarrow> None
      | Some (p1, s1) \<Rightarrow>
          rmatch (Seq (Plus [CSpace]) (Group (Plus [CDigit, CChar CHR ''.'']))) p1 s1 []
            (\<lambda>p' s' g'. Some (g', p', s')))"
    unfolding match_at_def label_amount_def
    by (simp del: rmatch.simps(3,6,9) add: rmatch.simps(6) [of "Lit L"] split: option.split)
  then show ?thesis by (simp only: rmatch_spaces_amount)
qed





lemma prefix_drop_sublist: "prefix L (drop i s) \<Longrightarrow> sublist L s"
  by (metis append_take_drop_id prefix_def sublist_def)

lemma no_straddle:
  assumes pre: "prefix L (drop i (pre @ c # r))" and i: "i < length pre"
    and c: "c \<notin> set (tl L)"
  shows "sublist L pre"
proof -
  let ?x = "drop i pre"
  have x: "?x \<noteq> []" using i by simp
  have "prefix L (?x @ c # r)" using pre i by simp
  then consider "prefix L ?x" | us where "L = ?x @ us" "prefix us (c # r)"
    by (auto simp: prefix_append)
  then show ?thesis
  proof cases
    case 1
    then show ?thesis by (rule prefix_drop_sublist)
  next
    case 2
    show ?thesis
    proof (cases us)
      case Nil
      then have "prefix L ?x" using 2 by simp
      then show ?thesis by (rule prefix_drop_sublist)
    next
      case (Cons u us')
      then have "u = c" using 2 by simp
      then have "c \<in> set (tl L)" using 2 Cons x by (cases ?x) auto
      then show ?thesis using c by simp
    qed
  qed
qed


lemma ends_amount_takeWhile:
  "ends_amount suf \<Longrightarrow> takeWhile is_amount_char suf = []"
  by (cases suf) (simp_all add: ends_amount_def is_amount_char_def)

lemma ends_amount_dropWhile:
  "ends_amount suf \<Longrightarrow> dropWhile is_amount_char suf = suf"
  by (cases suf) (simp_all add: ends_amount_def is_amount_char_def)




lemma float_0: "py_float (Str ''0'') = Inr 0"
  by (simp add: py_float_def float_of_token_def is_digit_def cp_def nat_of_digits_def)





lemma parse_basic_metrics_eval:
  assumes "grab text pat_subtotal ''0'' = Inr a"
    and "grab text pat_tax_a ''0'' = Inr ta"
    and "grab text pat_tax_b ''0'' = Inr tb"
    and "grab text pat_tax_c ''0'' = Inr tc"
    and "grab text pat_tax_total ''0'' = Inr tt"
    and "grab text pat_grand ''0'' = Inr gt"
    and "parse_payments text = Inr ps"
    and "parse_departments text = Inr ds"
  shows "parse_basic_metrics text = Inr \<lparr>subtotal = a, tax_a = ta, tax_b = tb, tax_c = tc,
    tax_total = tt, grand_total = gt, payments = ps, dept_df = ds\<rparr>"
  by (simp add: parse_basic_metrics_def bind_exn_def assms)

lemmas float_eval = py_float_def float_of_token_def is_digit_def cp_def nat_of_digits_def

lemma search_from_SomeD:
  "search_from r p s = Some g \<Longrightarrow> \<exists>q t p' s'. match_at r q t = Some (g, p', s')"
  by (induction s arbitrary: p) (auto split: option.splits)

lemma match_at_label_amount_SomeD:
  assumes "match_at (label_amount L) p s = Some (g, p', s')"
  shows "\<exists>t. g = [t] \<and> t \<noteq> [] \<and> list_all is_amount_char t"
proof -
  from assms obtain u where "amount_here u = Some (hd g, p', s')" and g: "g = [hd g]"
    by (auto simp: match_at_label_amount split: option.splits if_splits)
  then have "hd g = takeWhile is_amount_char u" and "takeWhile is_amount_char u \<noteq> []"
    by (auto simp: amount_here_def split: if_splits)
  then have "hd g \<noteq> [] \<and> list_all is_amount_char (hd g)"
    by (auto simp: list_all_iff dest: set_takeWhileD)
  then show ?thesis using g by metis
qed

lemma pat_grand_label:
  "match_at pat_grand p s = (if at_boundary p s then match_at (label_amount ''Total'') p s else None)"
  by (simp add: match_at_def pat_grand_def label_amount_def del: rmatch.simps(1,3,6,9)
      add: rmatch.simps(6) [of WordB])

lemma scalar_patterns_label:
  assumes "pat \<in> set scalar_patterns" and "match_at pat p s = Some (g, p', s')"
  shows "\<exists>L. match_at (label_amount L) p s = Some (g, p', s')"
proof -
  consider "pat = label_amount ''Merchandise Sales''" | "pat = label_amount ''Tax A''"
    | "pat = label_amount ''Tax B''" | "pat = label_amount ''Tax C''"
    | "pat = label_amount ''Tax Total''" | "pat = pat_grand"
    using assms(1)
    by (auto simp: scalar_patterns_def pat_subtotal_def pat_tax_a_def pat_tax_b_def
        pat_tax_c_def pat_tax_total_def label_amount_def)
  then show ?thesis
  proof cases
    case 6
    then show ?thesis using assms(2) by (auto simp: pat_grand_label split: if_splits)
  qed (use assms(2) in blast)+
qed

lemma scalar_token_shape:
  assumes "pat \<in> set scalar_patterns" and "re_search pat text = Some g"
  shows "g = [hd g] \<and> hd g \<noteq> [] \<and> list_all is_amount_char (hd g)"
proof -
  obtain q t p' s' where "match_at pat q t = Some (g, p', s')"
    using assms(2) search_from_SomeD unfolding re_search_def by blast
  then obtain L where "match_at (label_amount L) q t = Some (g, p', s')"
    using scalar_patterns_label [OF assms(1)] by blast
  then show ?thesis using match_at_label_amount_SomeD by fastforce
qed

lemma grab_cases:
  "grab text pat dflt =
     (case re_search pat text of
        None \<Rightarrow> py_float (Str dflt)
      | Some g \<Rightarrow>
          (case float_of_token (hd g) of
             Some x \<Rightarrow> Inr x
           | None \<Rightarrow> Inl (Exn ''ValueError''
                        (''could not convert string to float: '' @ repr (hd g)))))"
  by (simp add: grab_def py_float_def split: option.split)

lemma parse_fails_with_field:
  assumes "pat \<in> set scalar_patterns" and "grab text pat ''0'' = Inl e"
  shows "\<exists>e'. parse_basic_metrics text = Inl e' \<and> exn_class e' = ''ValueError''"
proof -
  have cls: "exn_class e' = ''ValueError''" if "grab text r ''0'' = Inl e'" for r e'
    using that by (auto simp: grab_cases float_0 split: option.splits)
  show ?thesis
    using assms cls
    by (auto simp: scalar_patterns_def parse_basic_metrics_def bind_exn_def split: sum.splits)
qed

text \<open>
  \<^bold>\<open>C3\<close> (amended). When a scalar-field pattern matches but the captured token is
  not a number, the field fails with Python's \<open>ValueError\<close>, whose message quotes the
  token and does not name the field; there is no other kind of exception. It is the
  only way a scalar field fails, and it ends \<open>parse_basic_metrics\<close> as a whole. A field
  whose pattern has no match raises nothing and yields 0.0. The token of each of the
  six fields is a non-empty run of digits and dots.
\<close>

theorem malformed_token_raises_ValueError:
  "(\<forall>g. re_search pat text = Some g \<and> float_of_token (hd g) = None \<longrightarrow>
       grab text pat ''0'' = Inl (Exn ''ValueError''
         (''could not convert string to float: '' @ repr (hd g))))
   \<and> (\<forall>e. grab text pat ''0'' = Inl e \<longrightarrow>
         exn_class e = ''ValueError''
         \<and> (\<exists>g. re_search pat text = Some g \<and> float_of_token (hd g) = None))
   \<and> (re_search pat text = None \<longrightarrow> grab text pat ''0'' = Inr 0)
   \<and> (\<forall>e. pat \<in> set scalar_patterns \<and> grab text pat ''0'' = Inl e \<longrightarrow>
         (\<exists>e'. parse_basic_metrics text = Inl e' \<and> exn_class e' = ''ValueError''))
   \<and> (\<forall>g. pat \<in> set scalar_patterns \<and> re_search pat text = Some g \<longrightarrow>
         g = [hd g] \<and> hd g \<noteq> [] \<and> list_all is_amount_char (hd g))"
proof -
  have a: "grab text pat ''0'' = Inl (Exn ''ValueError''
         (''could not convert string to float: '' @ repr (hd g)))"
    if "re_search pat text = Some g" "float_of_token (hd g) = None" for g
    using that by (simp add: grab_cases)
  have b: "exn_class e = ''ValueError''
         \<and> (\<exists>g. re_search pat text = Some g \<and> float_of_token (hd g) = None)"
    if "grab text pat ''0'' = Inl e" for e
    using that by (auto simp: grab_cases float_0 split: option.splits)
  have c: "grab text pat ''0'' = Inr 0" if "re_search pat text = None"
    using that by (simp add: grab_cases float_0)
  show ?thesis
    using a b c parse_fails_with_field scalar_token_shape by blast
qed

lemma map_of_dict_set: "map_of (dict_set d k v) = (map_of d)(k \<mapsto> v)"
  by (induction d k v rule: dict_set.induct) auto

lemma dict_get_map_of:
  "dict_get d k dflt = (case map_of d k of None \<Rightarrow> dflt | Some v \<Rightarrow> v)"
  by (induction d k dflt rule: dict_get.induct) auto

lemma map_of_fold_dict_set:
  "map_of (fold (\<lambda>g d. dict_set d (g ! 0) (Str (g ! 1))) ps d0) k =
     (if filter (\<lambda>g. g ! 0 = k) ps = [] then map_of d0 k
      else Some (Str (last (map (\<lambda>g. g ! 1) (filter (\<lambda>g. g ! 0 = k) ps)))))"
proof (induction ps arbitrary: d0 rule: rev_induct)
  case Nil
  then show ?case by simp
next
  case (snoc g ps)
  then show ?case by (simp add: map_of_dict_set)
qed

lemma map_of_dict_of_pairs:
  "map_of (dict_of_pairs (re_findall pat_pay text)) k =
     (if pay_occurrences k text = [] then None
      else Some (Str (last (pay_occurrences k text))))"
  using map_of_fold_dict_set [of "re_findall pat_pay text" "[]" k]
  by (simp add: dict_of_pairs_def pay_occurrences_def)

lemma pays_loop_other:
  "pays_loop ks d = Inr d' \<Longrightarrow> k \<notin> set ks \<Longrightarrow> map_of d' k = map_of d k"
proof (induction ks arbitrary: d)
  case Nil
  then show ?case by simp
next
  case (Cons k' ks)
  then show ?case
    by (auto simp: map_of_dict_set split: sum.splits)
qed

lemma pays_loop_key:
  "pays_loop ks d = Inr d' \<Longrightarrow> distinct ks \<Longrightarrow> k \<in> set ks \<Longrightarrow>
     \<exists>x. py_float (dict_get d k (Num 0)) = Inr x \<and> map_of d' k = Some (Num x)"
proof (induction ks arbitrary: d)
  case Nil
  then show ?case by simp
next
  case (Cons k' ks)
  from Cons.prems(1) obtain x' where
    x': "py_float (dict_get d k' (Num 0)) = Inr x'"
    and rest: "pays_loop ks (dict_set d k' (Num x')) = Inr d'"
    by (auto split: sum.splits)
  show ?case
  proof (cases "k = k'")
    case True
    then have "k \<notin> set ks" using Cons.prems(2) by simp
    then have "map_of d' k = map_of (dict_set d k' (Num x')) k"
      using pays_loop_other [OF rest] by simp
    then show ?thesis using True x' by (simp add: map_of_dict_set)
  next
    case False
    then have "k \<in> set ks" using Cons.prems(3) by simp
    then obtain x where "py_float (dict_get (dict_set d k' (Num x')) k (Num 0)) = Inr x"
      and "map_of d' k = Some (Num x)"
      using Cons.IH [OF rest] Cons.prems(2) by auto
    then show ?thesis using False by (auto simp: dict_get_map_of map_of_dict_set)
  qed
qed

lemma parse_payments_of_metrics:
  "parse_basic_metrics text = Inr m \<Longrightarrow> parse_payments text = Inr (payments m)"
  by (auto simp: parse_basic_metrics_def bind_exn_def split: sum.splits)

lemma distinct_pay_methods: "distinct pay_methods"
  by (simp add: pay_methods_def)

text \<open>
  \<^bold>\<open>C10.\<close> When the pattern finds a payment method in the text, once or more than
  once, the payments dictionary binds the method to the amount of its last occurrence
  in document order: that token is a number, and the number is the method's value.
\<close>

theorem payments_last_occurrence:
  assumes "parse_basic_metrics text = Inr m"
    and "k \<in> set pay_methods"
    and "pay_occurrences k text \<noteq> []"
  shows "\<exists>x. float_of_token (last (pay_occurrences k text)) = Some x
           \<and> map_of (payments m) k = Some (Num x)"
proof -
  have pays: "pays_loop pay_methods (dict_of_pairs (re_findall pat_pay text)) = Inr (payments m)"
    using parse_payments_of_metrics [OF assms(1)] by (simp add: parse_payments_def)
  obtain x where x: "py_float (dict_get (dict_of_pairs (re_findall pat_pay text)) k (Num 0)) = Inr x"
    and v: "map_of (payments m) k = Some (Num x)"
    using pays_loop_key [OF pays distinct_pay_methods assms(2)] by blast
  have "dict_get (dict_of_pairs (re_findall pat_pay text)) k (Num 0)
          = Str (last (pay_occurrences k text))"
    using assms(3) by (simp add: dict_get_map_of map_of_dict_of_pairs)
  then have "float_of_token (last (pay_occurrences k text)) = Some x"
    using x by (auto simp: py_float_def split: option.splits)
  then show ?thesis using v by blast
qed

lemma rmatch_opt_spaces_amount:
  "rmatch (Seq (Star [CSpace]) (Group (Plus [CDigit, CChar CHR ''.'']))) p s g
      (\<lambda>p' s' g'. Some (g', p', s')) =
     (case amount_here (dropWhile is_space s) of
        None \<Rightarrow> None | Some (t, p', s') \<Rightarrow> Some (g @ [t], p', s'))"
proof -
  let ?k = "\<lambda>p' s'. rmatch (Group (Plus [CDigit, CChar CHR ''.''])) p' s' g
              (\<lambda>p' s' g'. Some (g', p', s'))"
  have "greedy is_space p s ?k = ?k (span_end is_space p s) (dropWhile is_space s)"
    by (rule greedy_cut) (rule amount_group_fails_on_space)
  moreover have "rmatch (Seq (Star [CSpace]) (Group (Plus [CDigit, CChar CHR ''.'']))) p s g
      (\<lambda>p' s' g'. Some (g', p', s')) = greedy is_space p s ?k"
    by (simp add: in_class_space del: rmatch.simps(9))
  ultimately show ?thesis
    by (simp add: rmatch_amount_group del: rmatch.simps)
qed

lemma pay_branch:
  "rmatch (Lit L) p s []
     (\<lambda>p' s' g'. rmatch (Seq (Lit '':'') (Seq (Star [CSpace])
          (Group (Plus [CDigit, CChar CHR ''.''])))) p' s'
        (g' @ [take (length s - length s') s]) (\<lambda>p' s' g'. Some (g', p', s')))
   = pay_alt L p s"
proof (cases "eat L p s")
  case None
  then show ?thesis by (simp add: pay_alt_def)
next
  case (Some a)
  then obtain p1 s1 where a: "a = (p1, s1)" by (cases a)
  then have s: "s = L @ s1" using Some by (simp add: eat_eq_Some_iff)
  have "rmatch (Seq (Lit '':'') (Seq (Star [CSpace]) (Group (Plus [CDigit, CChar CHR ''.'']))))
          p1 s1 [L] (\<lambda>p' s' g'. Some (g', p', s'))
        = (case eat '':'' p1 s1 of
             None \<Rightarrow> None
           | Some (p2, s2) \<Rightarrow>
               rmatch (Seq (Star [CSpace]) (Group (Plus [CDigit, CChar CHR ''.'']))) p2 s2 [L]
                 (\<lambda>p' s' g'. Some (g', p', s')))"
    by (simp del: rmatch.simps(4,6,9) eat.simps add: rmatch.simps(6) [of "Lit '':''"]
        split: option.split)
  then show ?thesis
    using Some a s
    by (simp add: pay_alt_def rmatch_opt_spaces_amount del: rmatch.simps(4,6,9) eat.simps
        split: option.split)
qed

lemma match_at_pat_pay:
  "match_at pat_pay p s =
     (if at_boundary p s then
        (case pay_alt ''Cash'' p s of Some r \<Rightarrow> Some r | None \<Rightarrow>
        (case pay_alt ''AmEx'' p s of Some r \<Rightarrow> Some r | None \<Rightarrow>
        (case pay_alt ''Visa'' p s of Some r \<Rightarrow> Some r | None \<Rightarrow>
        (case pay_alt ''Master'' p s of Some r \<Rightarrow> Some r | None \<Rightarrow>
        (case pay_alt ''Other'' p s of Some r \<Rightarrow> Some r | None \<Rightarrow>
         pay_alt ''Discover'' p s)))))
      else None)"
proof -
  let ?K = "\<lambda>p' s' g'. rmatch (Seq (Lit '':'') (Seq (Star [CSpace])
          (Group (Plus [CDigit, CChar CHR ''.''])))) p' s'
        (g' @ [take (length s - length s') s]) (\<lambda>p' s' g'. Some (g', p', s'))"
  have "match_at pat_pay p s =
     (if at_boundary p s then
        (case rmatch (Lit ''Cash'') p s [] ?K of Some r \<Rightarrow> Some r | None \<Rightarrow>
        (case rmatch (Lit ''AmEx'') p s [] ?K of Some r \<Rightarrow> Some r | None \<Rightarrow>
        (case rmatch (Lit ''Visa'') p s [] ?K of Some r \<Rightarrow> Some r | None \<Rightarrow>
        (case rmatch (Lit ''Master'') p s [] ?K of Some r \<Rightarrow> Some r | None \<Rightarrow>
        (case rmatch (Lit ''Other'') p s [] ?K of Some r \<Rightarrow> Some r | None \<Rightarrow>
         rmatch (Lit ''Discover'') p s [] ?K)))))
      else None)"
    unfolding match_at_def pat_pay_def
    by (simp only: rmatch.simps(2,7,9) rmatch.simps(6) [of WordB] rmatch.simps(6) [of "Group _"])
  then show ?thesis by (simp only: pay_branch)
qed

lemma findall_from_skip:
  assumes "\<And>i q. i < length pre \<Longrightarrow> match_at r q (drop i (pre @ rest)) = None"
  shows "findall_from r p (pre @ rest)
           = findall_from r (if pre = [] then p else Some (last pre)) rest"
  using assms
proof (induction pre arbitrary: p)
  case Nil
  then show ?case by simp
next
  case (Cons d pre)
  have "match_at r p ((d # pre) @ rest) = None"
    using Cons.prems [of 0 p] by simp
  moreover have "findall_from r (Some d) (pre @ rest)
      = findall_from r (if pre = [] then Some d else Some (last pre)) rest"
  proof (rule Cons.IH)
    fix i q assume "i < length pre"
    then show "match_at r q (drop i (pre @ rest)) = None"
      using Cons.prems [of "Suc i" q] by simp
  qed
  ultimately show ?case by simp
qed

lemma findall_from_hit:
  "match_at r p s = Some (g, p', s') \<Longrightarrow> length s' < length s \<Longrightarrow>
     findall_from r p s = g # findall_from r p' s'"
  by (cases s) simp_all

lemma findall_from_miss:
  "match_at r p (c # s) = None \<Longrightarrow> findall_from r p (c # s) = findall_from r (Some c) s"
  by simp

lemma findall_from_none:
  assumes "\<And>i q. i \<le> length s \<Longrightarrow> match_at r q (drop i s) = None"
  shows "findall_from r p s = []"
  using assms
proof (induction s arbitrary: p)
  case Nil
  then show ?case using Nil [of 0 p] by simp
next
  case (Cons c s)
  have "match_at r p (c # s) = None" using Cons.prems [of 0 p] by simp
  moreover have "findall_from r (Some c) s = []"
  proof (rule Cons.IH)
    fix i q assume "i \<le> length s"
    then show "match_at r q (drop i s) = None"
      using Cons.prems [of "Suc i" q] by simp
  qed
  ultimately show ?case by simp
qed

lemma pay_alt_None: "\<not> prefix L s \<Longrightarrow> pay_alt L p s = None"
  by (simp add: pay_alt_def eat_eq_None_iff [THEN iffD2])

lemma match_at_pat_pay_None:
  assumes "\<And>L. L \<in> set pay_methods \<Longrightarrow> \<not> prefix L s"
  shows "match_at pat_pay p s = None"
  using assms by (simp add: match_at_pat_pay pay_alt_None pay_methods_def)

lemma findall_pay_50_75:
  assumes pre: "\<And>L. L \<in> set pay_methods \<Longrightarrow> \<not> sublist L pre"
    and suf: "\<And>L. L \<in> set pay_methods \<Longrightarrow> \<not> sublist L suf"
    and bnd: "pre = [] \<or> \<not> is_word (last pre)"
    and ends: "ends_amount suf"
  shows "re_findall pat_pay (pre @ ''Cash: 50.00 Visa: 75.25'' @ suf)
           = [[''Cash'', ''50.00''], [''Visa'', ''75.25'']]"
proof -
  let ?p = "if pre = [] then None else Some (last pre)"
  have skip: "findall_from pat_pay None (pre @ CHR ''C'' # ''ash: 50.00 Visa: 75.25'' @ suf)
      = findall_from pat_pay ?p (CHR ''C'' # ''ash: 50.00 Visa: 75.25'' @ suf)"
  proof (rule findall_from_skip)
    fix i q assume i: "i < length pre"
    show "match_at pat_pay q (drop i (pre @ CHR ''C'' # ''ash: 50.00 Visa: 75.25'' @ suf)) = None"
    proof (rule match_at_pat_pay_None)
      fix L assume L: "L \<in> set pay_methods"
      then have "CHR ''C'' \<notin> set (tl L)" by (auto simp: pay_methods_def)
      then show "\<not> prefix L (drop i (pre @ CHR ''C'' # ''ash: 50.00 Visa: 75.25'' @ suf))"
        using no_straddle [OF _ i] pre [OF L] by blast
    qed
  qed
  have b1: "at_boundary ?p (''Cash: 50.00 Visa: 75.25'' @ suf)"
    using bnd by (auto simp: at_boundary_def word_before_def word_after_def is_word_def cp_def)
  have m1: "match_at pat_pay ?p (''Cash: 50.00 Visa: 75.25'' @ suf)
      = Some ([''Cash'', ''50.00''], Some CHR ''0'', '' Visa: 75.25'' @ suf)"
    using b1
    by (simp add: match_at_pat_pay pay_alt_def amount_here_def is_space_def is_amount_char_def
        is_digit_def cp_def)
  have m2: "match_at pat_pay (Some CHR ''0'') ('' Visa: 75.25'' @ suf) = None"
    by (simp add: match_at_pat_pay pay_alt_def)
  have m3: "match_at pat_pay (Some CHR '' '') (''Visa: 75.25'' @ suf)
      = Some ([''Visa'', ''75.25''], Some CHR ''5'', suf)"
    using ends
    by (simp add: match_at_pat_pay pay_alt_def amount_here_def is_space_def is_amount_char_def
        is_digit_def cp_def at_boundary_def word_before_def word_after_def is_word_def
        ends_amount_takeWhile ends_amount_dropWhile)
  have tail: "findall_from pat_pay (Some CHR ''5'') suf = []"
  proof (rule findall_from_none)
    fix i q
    show "match_at pat_pay q (drop i suf) = None"
    proof (rule match_at_pat_pay_None)
      fix L assume "L \<in> set pay_methods"
      then show "\<not> prefix L (drop i suf)"
        using suf prefix_drop_sublist by blast
    qed
  qed
  have "findall_from pat_pay ?p (''Cash: 50.00 Visa: 75.25'' @ suf)
      = [''Cash'', ''50.00''] # findall_from pat_pay (Some CHR ''0'') ('' Visa: 75.25'' @ suf)"
    by (rule findall_from_hit [OF m1]) simp
  also have "findall_from pat_pay (Some CHR ''0'') ('' Visa: 75.25'' @ suf)
      = findall_from pat_pay (Some CHR '' '') (''Visa: 75.25'' @ suf)"
    using findall_from_miss [of pat_pay "Some CHR ''0''" "CHR '' ''" "''Visa: 75.25'' @ suf"] m2
    by simp
  also have "\<dots> = [''Visa'', ''75.25''] # findall_from pat_pay (Some CHR ''5'') suf"
    by (rule findall_from_hit [OF m3]) simp
  finally show ?thesis
    using skip tail by (simp add: re_findall_def)
qed

lemma pays_50_75:
  "pays_loop pay_methods (dict_of_pairs [[''Cash'', ''50.00''], [''Visa'', ''75.25'']])
     = Inr [(''Cash'', Num 50), (''Visa'', Num (7525 / 100)), (''AmEx'', Num 0),
            (''Master'', Num 0), (''Other'', Num 0), (''Discover'', Num 0)]"
  by (simp add: dict_of_pairs_def pay_methods_def float_eval)

text \<open>
  \<^bold>\<open>C5\<close> (amended). For every text \<open>pre @ "Cash: 50.00 Visa: 75.25" @ suf\<close> in
  which none of the six method names occurs in \<open>pre\<close> or in \<open>suf\<close>, \<open>pre\<close> does not
  end in a word character and \<open>suf\<close> does not go on with a digit or a dot, the payments
  dictionary is Cash 50.00, Visa 75.25, and 0.0 for AmEx, Master, Other and Discover:
  all six keys are present. The payments step raises nothing on such a text.
\<close>

theorem payments_cash_visa:
  assumes "\<forall>L \<in> set pay_methods. \<not> sublist L pre \<and> \<not> sublist L suf"
    and "pre = [] \<or> \<not> is_word (last pre)"
    and "ends_amount suf"
  shows "parse_payments (pre @ ''Cash: 50.00 Visa: 75.25'' @ suf)
           = Inr [(''Cash'', Num 50), (''Visa'', Num (7525 / 100)), (''AmEx'', Num 0),
                  (''Master'', Num 0), (''Other'', Num 0), (''Discover'', Num 0)]
    \<and> (\<forall>m. parse_basic_metrics (pre @ ''Cash: 50.00 Visa: 75.25'' @ suf) = Inr m \<longrightarrow>
          payments m = [(''Cash'', Num 50), (''Visa'', Num (7525 / 100)), (''AmEx'', Num 0),
                        (''Master'', Num 0), (''Other'', Num 0), (''Discover'', Num 0)])"
proof -
  have "re_findall pat_pay (pre @ ''Cash: 50.00 Visa: 75.25'' @ suf)
           = [[''Cash'', ''50.00''], [''Visa'', ''75.25'']]"
    using assms by (intro findall_pay_50_75) blast+
  then have a: "parse_payments (pre @ ''Cash: 50.00 Visa: 75.25'' @ suf)
           = Inr [(''Cash'', Num 50), (''Visa'', Num (7525 / 100)), (''AmEx'', Num 0),
                  (''Master'', Num 0), (''Other'', Num 0), (''Discover'', Num 0)]"
    by (simp only: parse_payments_def pays_50_75)
  show ?thesis
    using a parse_payments_of_metrics by fastforce
qed

text \<open>The payments line between a heading and a closing line.\<close>

theorem payments_cash_visa_witness:
  "\<not> is_word (last ''EOD\<newline>'')
   \<and> ends_amount ''\<newline>end''
   \<and> parse_payments ''EOD\<newline>Cash: 50.00 Visa: 75.25\<newline>end''
       = Inr [(''Cash'', Num 50), (''Visa'', Num (7525 / 100)), (''AmEx'', Num 0),
              (''Master'', Num 0), (''Other'', Num 0), (''Discover'', Num 0)]"
proof -
  have h1: "\<forall>L \<in> set pay_methods. \<not> sublist L ''EOD\<newline>'' \<and> \<not> sublist L ''\<newline>end''"
    by (simp add: pay_methods_def sublist_code(3))
  have h2: "\<not> is_word (last ''EOD\<newline>'')"
    by (simp add: is_word_def cp_def)
  have h3: "ends_amount ''\<newline>end''"
    by (simp add: ends_amount_def is_digit_def cp_def)
  show ?thesis
    using payments_cash_visa [of "''EOD\<newline>''" "''\<newline>end''"] h1 h2 h3 by simp
qed

lemma findall_from_mem:
  "g \<in> set (findall_from r p s) \<Longrightarrow> \<exists>q t p' s'. match_at r q t = Some (g, p', s')"
proof (induction "length s" arbitrary: p s rule: less_induct)
  case less
  show ?case
  proof (cases s)
    case Nil
    show ?thesis
    proof (cases "match_at r p []")
      case None
      then show ?thesis using less.prems Nil by simp
    next
      case (Some a)
      obtain g' p' s' where a: "a = (g', p', s')" by (cases a) auto
      have "g = g'" using less.prems Nil Some a by simp
      then show ?thesis using Some a by blast
    qed
  next
    case (Cons c cs)
    show ?thesis
    proof (cases "match_at r p (c # cs)")
      case None
      have "findall_from r p (c # cs) = findall_from r (Some c) cs"
        using None by simp
      then have "g \<in> set (findall_from r (Some c) cs)" using less.prems Cons by simp
      moreover have "length cs < length s" using Cons by simp
      ultimately show ?thesis using less.hyps by blast
    next
      case (Some a)
      obtain g' p' s' where a: "a = (g', p', s')" by (cases a) auto
      have m: "match_at r p (c # cs) = Some (g', p', s')" using Some a by simp
      show ?thesis
      proof (cases "length s' < length (c # cs)")
        case True
        have "findall_from r p (c # cs) = g' # findall_from r p' s'"
          using m True by simp
        then have "g = g' \<or> g \<in> set (findall_from r p' s')"
          using less.prems Cons by simp
        moreover have "length s' < length s" using True Cons by simp
        ultimately show ?thesis using m less.hyps by blast
      next
        case False
        have "findall_from r p (c # cs) = g' # findall_from r (Some c) cs"
          using m False by simp
        then have "g = g' \<or> g \<in> set (findall_from r (Some c) cs)"
          using less.prems Cons by simp
        moreover have "length cs < length s" using Cons by simp
        ultimately show ?thesis using m less.hyps by blast
      qed
    qed
  qed
qed

lemma pay_alt_SomeD: "pay_alt L p s = Some (g, p', s') \<Longrightarrow> \<exists>t. g = [L, t]"
  by (auto simp: pay_alt_def split: option.splits)

lemma case_option_SomeD:
  "(case x of Some r \<Rightarrow> Some r | None \<Rightarrow> y) = Some z \<Longrightarrow> x = Some z \<or> y = Some z"
  by (cases x) auto

lemma match_at_pat_pay_SomeD:
  assumes "match_at pat_pay p s = Some (g, p', s')"
  shows "\<exists>L t. L \<in> set pay_methods \<and> g = [L, t]"
proof -
  from assms have "(case pay_alt ''Cash'' p s of Some r \<Rightarrow> Some r | None \<Rightarrow>
        (case pay_alt ''AmEx'' p s of Some r \<Rightarrow> Some r | None \<Rightarrow>
        (case pay_alt ''Visa'' p s of Some r \<Rightarrow> Some r | None \<Rightarrow>
        (case pay_alt ''Master'' p s of Some r \<Rightarrow> Some r | None \<Rightarrow>
        (case pay_alt ''Other'' p s of Some r \<Rightarrow> Some r | None \<Rightarrow>
         pay_alt ''Discover'' p s))))) = Some (g, p', s')"
    by (simp add: match_at_pat_pay split: if_splits)
  then have "pay_alt ''Cash'' p s = Some (g, p', s') \<or> pay_alt ''AmEx'' p s = Some (g, p', s')
      \<or> pay_alt ''Visa'' p s = Some (g, p', s') \<or> pay_alt ''Master'' p s = Some (g, p', s')
      \<or> pay_alt ''Other'' p s = Some (g, p', s') \<or> pay_alt ''Discover'' p s = Some (g, p', s')"
    by (blast dest: case_option_SomeD)
  then obtain L where "L \<in> set pay_methods" and "pay_alt L p s = Some (g, p', s')"
    unfolding pay_methods_def by auto
  then show ?thesis using pay_alt_SomeD by blast
qed

lemma findall_pay_keys:
  "g \<in> set (re_findall pat_pay text) \<Longrightarrow> g ! 0 \<in> set pay_methods"
proof -
  assume "g \<in> set (re_findall pat_pay text)"
  then obtain q t p' s' where "match_at pat_pay q t = Some (g, p', s')"
    unfolding re_findall_def using findall_from_mem by blast
  then obtain L u where "L \<in> set pay_methods" and "g = [L, u]"
    using match_at_pat_pay_SomeD by blast
  then show ?thesis by simp
qed

lemma keys_dict_set: "fst ` set (dict_set d k v) = insert k (fst ` set d)"
  by (induction d k v rule: dict_set.induct) auto

lemma distinct_dict_set: "distinct (map fst d) \<Longrightarrow> distinct (map fst (dict_set d k v))"
proof (induction d k v rule: dict_set.induct)
  case (1 k v)
  then show ?case by simp
next
  case (2 k' v' d k v)
  then show ?case using keys_dict_set [of d k v] by (auto simp: image_iff)
qed

lemma dict_fold_invariant:
  "distinct (map fst d0) \<Longrightarrow>
   distinct (map fst (fold (\<lambda>g d. dict_set d (g ! 0) (Str (g ! 1))) ps d0))
   \<and> fst ` set (fold (\<lambda>g d. dict_set d (g ! 0) (Str (g ! 1))) ps d0)
       = fst ` set d0 \<union> (\<lambda>g. g ! 0) ` set ps"
proof (induction ps arbitrary: d0)
  case Nil
  then show ?case by simp
next
  case (Cons g ps)
  have "distinct (map fst (dict_set d0 (g ! 0) (Str (g ! 1))))"
    using Cons.prems by (rule distinct_dict_set)
  from Cons.IH [OF this] show ?case
    by (simp add: keys_dict_set Un_commute insert_commute)
qed

lemma pays_loop_invariant:
  "pays_loop ks d = Inr d' \<Longrightarrow> distinct (map fst d) \<Longrightarrow>
     distinct (map fst d') \<and> fst ` set d' = fst ` set d \<union> set ks"
proof (induction ks arbitrary: d)
  case Nil
  then show ?case by simp
next
  case (Cons k ks)
  from Cons.prems(1) obtain x where
    rest: "pays_loop ks (dict_set d k (Num x)) = Inr d'"
    by (auto split: sum.splits)
  have "distinct (map fst (dict_set d k (Num x)))"
    using Cons.prems(2) by (rule distinct_dict_set)
  from Cons.IH [OF rest this] show ?case
    by (simp add: keys_dict_set)
qed

lemma payments_all_numbers:
  assumes "parse_basic_metrics text = Inr m" and "v \<in> set (map snd (payments m))"
  shows "\<exists>x. v = Num x"
proof -
  let ?d = "dict_of_pairs (re_findall pat_pay text)"
  have pays: "pays_loop pay_methods ?d = Inr (payments m)"
    using parse_payments_of_metrics [OF assms(1)] by (simp add: parse_payments_def)
  have d: "distinct (map fst ?d) \<and> fst ` set ?d = (\<lambda>g. g ! 0) ` set (re_findall pat_pay text)"
    using dict_fold_invariant [of "[]" "re_findall pat_pay text"]
    by (simp add: dict_of_pairs_def)
  then have keys: "fst ` set ?d \<subseteq> set pay_methods"
    using findall_pay_keys by auto
  have inv: "distinct (map fst (payments m))"
    and dom: "fst ` set (payments m) = fst ` set ?d \<union> set pay_methods"
    using pays_loop_invariant [OF pays] d by auto
  from assms(2) obtain k where kv: "(k, v) \<in> set (payments m)" by auto
  then have "k \<in> fst ` set (payments m)" by (rule image_eqI [rotated]) simp
  then have "k \<in> fst ` set ?d \<union> set pay_methods" by (simp only: dom)
  then have "k \<in> set pay_methods" using keys by blast
  then obtain x where "map_of (payments m) k = Some (Num x)"
    using pays_loop_key [OF pays distinct_pay_methods] by blast
  moreover have "map_of (payments m) k = Some v"
    using inv kv by simp
  ultimately show ?thesis by simp
qed

lemma sum_values_numbers:
  "(\<And>v. v \<in> set vs \<Longrightarrow> \<exists>x. v = Num x) \<Longrightarrow> \<exists>t. sum_values vs b acc = Inr t"
proof (induction vs arbitrary: b acc)
  case Nil
  then show ?case by simp
next
  case (Cons v vs)
  then obtain x where "v = Num x" by (meson list.set_intros(1))
  then show ?case using Cons by simp
qed

lemma dashboard_ok:
  assumes "parse_basic_metrics text = Inr m"
  shows "\<exists>ws. dashboard m = Inr ws"
proof -
  obtain t where "sum_values (map snd (payments m)) True 0 = Inr t"
    using sum_values_numbers [of "map snd (payments m)" True 0]
      payments_all_numbers [OF assms] by blast
  then show ?thesis by (simp add: dashboard_def bind_exn_def)
qed













lemma e2e_subtotal: "grab e2e_text pat_subtotal ''0'' = Inr 200"
proof -
  have "re_search pat_subtotal e2e_text = Some [''200.00'']"
    unfolding e2e_text_def by code_simp
  then show ?thesis by (simp add: grab_def float_eval)
qed

lemma e2e_tax_a: "grab e2e_text pat_tax_a ''0'' = Inr 10"
proof -
  have "re_search pat_tax_a e2e_text = Some [''10.00'']"
    unfolding e2e_text_def by code_simp
  then show ?thesis by (simp add: grab_def float_eval)
qed

lemma e2e_tax_b: "grab e2e_text pat_tax_b ''0'' = Inr 0"
proof -
  have "re_search pat_tax_b e2e_text = None"
    unfolding e2e_text_def by code_simp
  then show ?thesis by (simp add: grab_def float_eval)
qed

lemma e2e_tax_c: "grab e2e_text pat_tax_c ''0'' = Inr 0"
proof -
  have "re_search pat_tax_c e2e_text = None"
    unfolding e2e_text_def by code_simp
  then show ?thesis by (simp add: grab_def float_eval)
qed

lemma e2e_tax_total: "grab e2e_text pat_tax_total ''0'' = Inr 16"
proof -
  have "re_search pat_tax_total e2e_text = Some [''16.00'']"
    unfolding e2e_text_def by code_simp
  then show ?thesis by (simp add: grab_def float_eval)
qed

lemma e2e_grand: "grab e2e_text pat_grand ''0'' = Inr 16"
proof -
  have "re_search pat_grand e2e_text = Some [''16.00'']"
    unfolding e2e_text_def by code_simp
  then show ?thesis by (simp add: grab_def float_eval)
qed

lemma e2e_payments:
  "parse_payments e2e_text = Inr [(''Cash'', Num 216), (''AmEx'', Num 0), (''Visa'', Num 0),
     (''Master'', Num 0), (''Other'', Num 0), (''Discover'', Num 0)]"
proof -
  have "re_findall pat_pay e2e_text = [[''Cash'', ''216.00'']]"
    unfolding e2e_text_def by code_simp
  then show ?thesis
    by (simp add: parse_payments_def dict_of_pairs_def pay_methods_def float_eval)
qed

lemma e2e_departments: "parse_departments e2e_text = Inr []"
proof -
  have "re_findall pat_dept e2e_text = []"
    unfolding e2e_text_def by code_simp
  then show ?thesis by (simp add: parse_departments_def)
qed

text \<open>
  \<^bold>\<open>C1.\<close> On the end-to-end text the pattern \<open>\bTotal\s+([\d\.]+)\<close> first matches
  inside the line \<open>Tax Total 16.00\<close>, where a space precedes \<open>Total\<close>: the grand total
  extracted is 16.00, not 216.00 (subtotal 200.00 and tax total 16.00 are as expected).
\<close>

theorem grand_total_takes_tax_total_line:
  "parse_basic_metrics e2e_text =
     Inr \<lparr>subtotal = 200, tax_a = 10, tax_b = 0, tax_c = 0, tax_total = 16, grand_total = 16,
          payments = [(''Cash'', Num 216), (''AmEx'', Num 0), (''Visa'', Num 0),
                      (''Master'', Num 0), (''Other'', Num 0), (''Discover'', Num 0)],
          dept_df = []\<rparr>"
  by (rule parse_basic_metrics_eval [OF e2e_subtotal e2e_tax_a e2e_tax_b e2e_tax_c
        e2e_tax_total e2e_grand e2e_payments e2e_departments])

text \<open>The subtotal token \<open>1.2.3\<close>: a \<open>ValueError\<close> that quotes the token.\<close>

theorem malformed_subtotal_ValueError:
  "parse_basic_metrics ''Merchandise Sales 1.2.3''
     = Inl (Exn ''ValueError'' (''could not convert string to float: '' @ repr ''1.2.3''))"
proof -
  have "re_search pat_subtotal ''Merchandise Sales 1.2.3'' = Some [''1.2.3'']"
    by code_simp
  then have "grab ''Merchandise Sales 1.2.3'' pat_subtotal ''0''
     = Inl (Exn ''ValueError'' (''could not convert string to float: '' @ repr ''1.2.3''))"
    by (simp add: grab_cases float_of_token_def is_digit_def cp_def)
  then show ?thesis by (simp add: parse_basic_metrics_def bind_exn_def)
qed

text \<open>The tax total \<open>..\<close> is refused, with the message the theorem gives.\<close>

theorem malformed_token_raises_ValueError_witness:
  "re_search pat_tax_total ''Tax Total ..'' = Some [''..'']
   \<and> float_of_token ''..'' = None
   \<and> pat_tax_total \<in> set scalar_patterns
   \<and> grab ''Tax Total ..'' pat_tax_total ''0''
       = Inl (Exn ''ValueError'' (''could not convert string to float: '' @ repr ''..''))"
proof -
  have h1: "re_search pat_tax_total ''Tax Total ..'' = Some [''..'']"
    by code_simp
  have h2: "float_of_token ''..'' = None"
    by (simp add: float_of_token_def is_digit_def cp_def)
  have h3: "pat_tax_total \<in> set scalar_patterns"
    by (simp add: scalar_patterns_def)
  show ?thesis
    using malformed_token_raises_ValueError [of pat_tax_total "''Tax Total ..''"] h1 h2 h3
    by simp
qed

lemma petty_cash_matches:
  "re_search pat_subtotal ''PettyCash: 50.00 Visa: 75.25'' = None
   \<and> re_search pat_tax_a ''PettyCash: 50.00 Visa: 75.25'' = None
   \<and> re_search pat_tax_b ''PettyCash: 50.00 Visa: 75.25'' = None
   \<and> re_search pat_tax_c ''PettyCash: 50.00 Visa: 75.25'' = None
   \<and> re_search pat_tax_total ''PettyCash: 50.00 Visa: 75.25'' = None
   \<and> re_search pat_grand ''PettyCash: 50.00 Visa: 75.25'' = None
   \<and> re_findall pat_pay ''PettyCash: 50.00 Visa: 75.25'' = [[''Visa'', ''75.25'']]
   \<and> re_findall pat_dept ''PettyCash: 50.00 Visa: 75.25'' = []"
  by code_simp

text \<open>
  The text \<open>PettyCash: 50.00 Visa: 75.25\<close> contains \<open>Cash: 50.00 Visa: 75.25\<close> and no
  other method name, yet Cash is 0.0: the \<open>\b\<close> of the pattern refuses a name that
  continues a word.
\<close>

theorem petty_cash_is_not_cash:
  "parse_basic_metrics ''PettyCash: 50.00 Visa: 75.25'' =
     Inr \<lparr>subtotal = 0, tax_a = 0, tax_b = 0, tax_c = 0, tax_total = 0, grand_total = 0,
          payments = [(''Visa'', Num (7525 / 100)), (''Cash'', Num 0), (''AmEx'', Num 0),
                      (''Master'', Num 0), (''Other'', Num 0), (''Discover'', Num 0)],
          dept_df = []\<rparr>"
  by (simp add: parse_basic_metrics_def bind_exn_def grab_def parse_payments_def
      parse_departments_def petty_cash_matches dict_of_pairs_def pay_methods_def float_eval)

lemma two_cash_matches:
  "re_search pat_subtotal ''Cash: 10.00\<newline>Cash: 20.00'' = None
   \<and> re_search pat_tax_a ''Cash: 10.00\<newline>Cash: 20.00'' = None
   \<and> re_search pat_tax_b ''Cash: 10.00\<newline>Cash: 20.00'' = None
   \<and> re_search pat_tax_c ''Cash: 10.00\<newline>Cash: 20.00'' = None
   \<and> re_search pat_tax_total ''Cash: 10.00\<newline>Cash: 20.00'' = None
   \<and> re_search pat_grand ''Cash: 10.00\<newline>Cash: 20.00'' = None
   \<and> re_findall pat_pay ''Cash: 10.00\<newline>Cash: 20.00''
       = [[''Cash'', ''10.00''], [''Cash'', ''20.00'']]
   \<and> re_findall pat_dept ''Cash: 10.00\<newline>Cash: 20.00'' = []"
  by code_simp

lemma two_cash_parse:
  "parse_basic_metrics ''Cash: 10.00\<newline>Cash: 20.00'' =
     Inr \<lparr>subtotal = 0, tax_a = 0, tax_b = 0, tax_c = 0, tax_total = 0, grand_total = 0,
          payments = [(''Cash'', Num 20), (''AmEx'', Num 0), (''Visa'', Num 0),
                      (''Master'', Num 0), (''Other'', Num 0), (''Discover'', Num 0)],
          dept_df = []\<rparr>"
  by (simp add: parse_basic_metrics_def bind_exn_def grab_def parse_payments_def
      parse_departments_def two_cash_matches dict_of_pairs_def pay_methods_def float_eval)

text \<open>\<open>Cash: 10.00\<close> and, on the next line, \<open>Cash: 20.00\<close>: Cash is 20.00.\<close>

theorem payments_last_occurrence_witness:
  "parse_basic_metrics ''Cash: 10.00\<newline>Cash: 20.00'' =
     Inr \<lparr>subtotal = 0, tax_a = 0, tax_b = 0, tax_c = 0, tax_total = 0, grand_total = 0,
          payments = [(''Cash'', Num 20), (''AmEx'', Num 0), (''Visa'', Num 0),
                      (''Master'', Num 0), (''Other'', Num 0), (''Discover'', Num 0)],
          dept_df = []\<rparr>
   \<and> ''Cash'' \<in> set pay_methods
   \<and> pay_occurrences ''Cash'' ''Cash: 10.00\<newline>Cash: 20.00'' = [''10.00'', ''20.00'']
   \<and> (\<exists>x. float_of_token ''20.00'' = Some x
          \<and> map_of [(''Cash'', Num 20), (''AmEx'', Num 0), (''Visa'', Num 0),
                     (''Master'', Num 0), (''Other'', Num 0), (''Discover'', Num 0)] ''Cash''
              = Some (Num x))"
proof -
  have h2: "''Cash'' \<in> set pay_methods"
    by (simp add: pay_methods_def)
  have h3: "pay_occurrences ''Cash'' ''Cash: 10.00\<newline>Cash: 20.00'' = [''10.00'', ''20.00'']"
    by (simp add: pay_occurrences_def two_cash_matches)
  have h3': "pay_occurrences ''Cash'' ''Cash: 10.00\<newline>Cash: 20.00'' \<noteq> []"
    by (simp add: h3)
  show ?thesis
    using payments_last_occurrence [OF two_cash_parse h2 h3'] two_cash_parse h2 h3
    by simp
qed




















end
